theory Spec2Isabelle
  imports
    Main
    "HOL-Library.Multiset"
    "HOL-Library.Sublist"
    "HOL-Library.Char_ord"
    "HOL-Library.List_Lexorder"
    "HOL-Library.Option_ord"
begin

section \<open>The Olympics medal API (flask-api/app2.py)\<close>

text \<open>
  The program loads three CSV files into an SQLite file on first start and serves
  read-only queries over the table \<open>athletes\<close>. The embedding follows the source
  function by function. What the source delegates to SQLite is written out:
  \<^item> every column is nullable (\<open>Column(Integer)\<close>, \<open>Column(String)\<close> carry no
    \<open>nullable=False\<close>), so a cell is an \<open>option\<close>, \<open>None\<close> being SQL NULL;
  \<^item> a comparison with NULL is not true, so a \<open>filter\<close> drops the row;
  \<^item> \<open>ORDER BY\<close> puts NULL before every value when ascending and after every value
    when descending; text is compared byte by byte (collation BINARY);
  \<^item> \<open>ilike\<close> is rendered for SQLite as \<open>lower(col) LIKE lower(pattern)\<close>, where
    \<open>lower\<close> folds the ASCII letters only and \<open>LIKE\<close> has the wildcards
    \<open>%\<close> and \<open>_\<close>, reads its operands up to the first NUL and refuses a pattern
    of more than 50000 bytes;
  \<^item> an integer parameter outside the signed 64-bit range is refused by the driver
    with an exception.
  A string is the sequence of bytes of its UTF-8 encoding, which every Python string
  that reaches SQLite has. The files are taken to have the columns that the model
  classes declare, with cells that are empty, integers or text as declared. (The CSV
  reader turns an integer column with an empty cell into floats of the same values;
  the model keeps them as integers.)
\<close>

subsection \<open>Tables and the store file\<close>

record athletes_row =
  Year :: "int option"
  Country :: "string option"
  Host :: "int option"
  Athletes :: "int option"
  Sports :: "int option"
  Events :: "int option"
  Gold :: "int option"
  Silver :: "int option"
  Bronze :: "int option"
  Medals :: "int option"

text \<open>Rows of \<open>host_country\<close> (Year, Country, City) and of \<open>summer_olympics_host\<close>
  (Year, Host); no query reads them.\<close>

type_synonym host_country_row = "int option \<times> string option \<times> string option"

type_synonym summer_olympics_host_row = "int option \<times> string option"

text \<open>The content of \<open>olympics.db\<close>: each of the three tables is there or not.\<close>

record database =
  host_country :: "host_country_row list option"
  summer_olympics_host :: "summer_olympics_host_row list option"
  athletes :: "athletes_row list option"

text \<open>The files the program touches. The loader works on the file \<open>olympics.db\<close>
  of the working directory and reads the three CSV files under \<open>data/\<close> there, each
  present (with its parsed rows) or absent. The queries go through the URI
  \<open>sqlite:///olympics.db\<close>, whose relative path the database extension resolves
  against a directory of its own choice (the application's root or its instance folder,
  by version): \<open>uri_resolves_to_cwd\<close> says whether that is the loader's file, and
  \<open>uri_olympics_db\<close> is the file the URI denotes when it is another one.\<close>

record filesystem =
  olympics_db :: "database option"
  host_country_csv :: "host_country_row list option"
  Summer_Olympics_Host_csv :: "summer_olympics_host_row list option"
  summer_athlete_medals_count_csv :: "athletes_row list option"
  uri_resolves_to_cwd :: bool
  uri_olympics_db :: "database option"

datatype error =
  FileNotFoundError
  | OperationalError
  | OverflowError
  | TemplateNotFound

text \<open>An SQLite INTEGER has 64 bits: binding a Python integer outside the signed 64-bit
  range, as a parameter of a query or as a cell to insert, raises \<open>OverflowError\<close>.\<close>

definition fits_sqlite_integer :: "int \<Rightarrow> bool" where
  "fits_sqlite_integer n = (- 9223372036854775808 \<le> n \<and> n < 9223372036854775808)"

subsection \<open>create_db_from_csv\<close>

text \<open>\<open>sqlite3.connect\<close> creates the (empty) store file before the first CSV file is
  read; an exception of \<open>read_csv\<close> is logged and raised again, leaving that file.
  The three files are read before the first table is written. \<open>to_sql\<close> creates its
  table, then inserts the rows in one transaction: a cell that does not fit an SQLite
  INTEGER raises \<open>OverflowError\<close> and the insertion is rolled back, which leaves the
  table empty, the tables written before it complete and the others missing. (Where the
  CSV reader has turned such a column into floats, nothing is raised: that case is left
  out.)\<close>

definition empty_database :: database where
  "empty_database = \<lparr>host_country = None, summer_olympics_host = None, athletes = None\<rparr>"

definition cell_fits :: "int option \<Rightarrow> bool" where
  "cell_fits c = (case c of None \<Rightarrow> True | Some n \<Rightarrow> fits_sqlite_integer n)"

definition to_sql :: "('r \<Rightarrow> int option list) \<Rightarrow> 'r list \<Rightarrow> error + 'r list" where
  "to_sql integer_cells df =
     (if list_all (\<lambda>r. list_all cell_fits (integer_cells r)) df then Inr df
      else Inl OverflowError)"

definition host_country_integers :: "host_country_row \<Rightarrow> int option list" where
  "host_country_integers r = [fst r]"

definition summer_olympics_host_integers :: "summer_olympics_host_row \<Rightarrow> int option list" where
  "summer_olympics_host_integers r = [fst r]"

definition athletes_integers :: "athletes_row \<Rightarrow> int option list" where
  "athletes_integers r =
     [Year r, Host r, Athletes r, Sports r, Events r, Gold r, Silver r, Bronze r, Medals r]"

definition create_db_from_csv :: "filesystem \<Rightarrow> (error + unit) \<times> filesystem" where
  "create_db_from_csv fs =
     (if olympics_db fs \<noteq> None then (Inr (), fs)
      else
        let conn = empty_database in
        case host_country_csv fs of
          None \<Rightarrow> (Inl FileNotFoundError, fs\<lparr>olympics_db := Some conn\<rparr>)
        | Some host_country_df \<Rightarrow>
        (case Summer_Olympics_Host_csv fs of
          None \<Rightarrow> (Inl FileNotFoundError, fs\<lparr>olympics_db := Some conn\<rparr>)
        | Some summer_olympics_host_df \<Rightarrow>
        (case summer_athlete_medals_count_csv fs of
          None \<Rightarrow> (Inl FileNotFoundError, fs\<lparr>olympics_db := Some conn\<rparr>)
        | Some summer_athlete_medals_df \<Rightarrow>
        (case to_sql host_country_integers host_country_df of
          Inl e \<Rightarrow> (Inl e, fs\<lparr>olympics_db := Some (conn\<lparr>host_country := Some []\<rparr>)\<rparr>)
        | Inr t1 \<Rightarrow>
        (let conn = conn\<lparr>host_country := Some t1\<rparr> in
         case to_sql summer_olympics_host_integers summer_olympics_host_df of
          Inl e \<Rightarrow> (Inl e, fs\<lparr>olympics_db := Some (conn\<lparr>summer_olympics_host := Some []\<rparr>)\<rparr>)
        | Inr t2 \<Rightarrow>
        (let conn = conn\<lparr>summer_olympics_host := Some t2\<rparr> in
         case to_sql athletes_integers summer_athlete_medals_df of
          Inl e \<Rightarrow> (Inl e, fs\<lparr>olympics_db := Some (conn\<lparr>athletes := Some []\<rparr>)\<rparr>)
        | Inr t3 \<Rightarrow> (Inr (), fs\<lparr>olympics_db := Some (conn\<lparr>athletes := Some t3\<rparr>)\<rparr>)))))))"

text \<open>The store that the queries see: the file behind the URI, which SQLite creates,
  empty, when it is missing.\<close>

definition engine_database :: "filesystem \<Rightarrow> database" where
  "engine_database fs =
     (case (if uri_resolves_to_cwd fs then olympics_db fs else uri_olympics_db fs) of
        None \<Rightarrow> empty_database
      | Some db \<Rightarrow> db)"

subsection \<open>SQL: comparisons, ORDER BY, LIKE\<close>

definition sql_eq :: "int option \<Rightarrow> int \<Rightarrow> bool" where
  "sql_eq c k = (case c of None \<Rightarrow> False | Some v \<Rightarrow> v = k)"

definition sql_gt :: "int option \<Rightarrow> int \<Rightarrow> bool" where
  "sql_gt c k = (case c of None \<Rightarrow> False | Some v \<Rightarrow> k < v)"

definition sql_ge :: "int option \<Rightarrow> int \<Rightarrow> bool" where
  "sql_ge c k = (case c of None \<Rightarrow> False | Some v \<Rightarrow> k \<le> v)"

text \<open>\<open>ORDER BY\<close> as a stable insertion sort of the rows in table order, by a
  comparison \<open>le\<close>. On optional values \<open>\<le>\<close> is the order with \<open>None\<close> least,
  on strings the lexicographic order of the character codes.\<close>

fun insort_wrt :: "('a \<Rightarrow> 'a \<Rightarrow> bool) \<Rightarrow> 'a \<Rightarrow> 'a list \<Rightarrow> 'a list" where
  "insort_wrt le x [] = [x]"
| "insort_wrt le x (y # ys) = (if le x y then x # y # ys else y # insort_wrt le x ys)"

definition order_by :: "('a \<Rightarrow> 'a \<Rightarrow> bool) \<Rightarrow> 'a list \<Rightarrow> 'a list" where
  "order_by le xs = foldr (insort_wrt le) xs []"

definition by_Year_Country :: "athletes_row \<Rightarrow> athletes_row \<Rightarrow> bool" where
  "by_Year_Country r s = (Year r < Year s \<or> (Year r = Year s \<and> Country r \<le> Country s))"

definition by_Medals_desc :: "athletes_row \<Rightarrow> athletes_row \<Rightarrow> bool" where
  "by_Medals_desc r s = (Medals s \<le> Medals r)"

definition by_Year :: "athletes_row \<Rightarrow> athletes_row \<Rightarrow> bool" where
  "by_Year r s = (Year r \<le> Year s)"

definition by_Year_Medals_desc :: "athletes_row \<Rightarrow> athletes_row \<Rightarrow> bool" where
  "by_Year_Medals_desc r s = (Year r < Year s \<or> (Year r = Year s \<and> Medals s \<le> Medals r))"

text \<open>SQLite's \<open>lower\<close>: the letters A to Z become a to z, every other character
  stays.\<close>

definition lower_char :: "char \<Rightarrow> char" where
  "lower_char c =
     (case map_of (zip ''ABCDEFGHIJKLMNOPQRSTUVWXYZ'' ''abcdefghijklmnopqrstuvwxyz'') c of
        None \<Rightarrow> c
      | Some l \<Rightarrow> l)"

definition sql_lower :: "string \<Rightarrow> string" where
  "sql_lower s = map lower_char s"

text \<open>\<open>LIKE\<close> reads its two operands as C strings, up to the first NUL, one UTF-8
  character at a time: a byte from \<open>0xC0\<close> on takes the continuation bytes
  (\<open>0x80\<close> to \<open>0xBF\<close>) that follow it along, any other byte stands alone.\<close>

definition c_string :: "string \<Rightarrow> string" where
  "c_string s = takeWhile (\<lambda>c. c \<noteq> CHR 0x00) s"

definition continuation :: "char \<Rightarrow> bool" where
  "continuation c = (CHR 0x80 \<le> c \<and> c < CHR 0xC0)"

function utf8_chars :: "string \<Rightarrow> string list" where
  "utf8_chars [] = []"
| "utf8_chars (c # s) =
     (if CHR 0xC0 \<le> c then (c # takeWhile continuation s) # utf8_chars (dropWhile continuation s)
      else [c] # utf8_chars s)"
  by pat_completeness auto
termination
  by (relation "measure length") (auto simp: length_dropWhile_le less_Suc_eq_le)

text \<open>The comparison of \<open>LIKE\<close> on characters (pattern first): \<open>%\<close> stands for any
  run of characters, \<open>_\<close> for exactly one, any other character for itself, an ASCII
  letter for both of its cases. There is no escape character.\<close>

fun like :: "string list \<Rightarrow> string list \<Rightarrow> bool" where
  "like [] [] = True"
| "like [] (c # s) = False"
| "like (p # ps) [] = (p = ''%'' \<and> like ps [])"
| "like (p # ps) (c # s) =
     (if p = ''%'' then like ps (c # s) \<or> like (p # ps) s
      else (p = ''_'' \<or> map lower_char p = map lower_char c) \<and> like ps s)"

text \<open>The SQL function behind \<open>X LIKE Y\<close>, \<open>like(Y, X)\<close>: it first refuses a pattern
  of more than 50000 bytes, with the error \<open>LIKE or GLOB pattern too complex\<close>, even
  when \<open>X\<close> is NULL; NULL matches nothing.\<close>

definition like_function :: "string \<Rightarrow> string option \<Rightarrow> error + bool" where
  "like_function pattern x =
     (if 50000 < length pattern then Inl OperationalError
      else Inr (case x of
                  None \<Rightarrow> False
                | Some t \<Rightarrow> like (utf8_chars (c_string pattern)) (utf8_chars (c_string t))))"

text \<open>\<open>col.ilike(pattern)\<close>, that is \<open>lower(col) LIKE lower(pattern)\<close>.\<close>

definition ilike :: "string option \<Rightarrow> string \<Rightarrow> error + bool" where
  "ilike col pattern = like_function (sql_lower pattern) (map_option sql_lower col)"

text \<open>The rows that a \<open>WHERE\<close> clause keeps, in table order. The clause is evaluated
  row by row, and an error on a row ends the query with that error.\<close>

fun sql_where :: "('r \<Rightarrow> error + bool) \<Rightarrow> 'r list \<Rightarrow> error + 'r list" where
  "sql_where p [] = Inr []"
| "sql_where p (r # rs) =
     (case p r of
        Inl e \<Rightarrow> Inl e
      | Inr b \<Rightarrow>
          (case sql_where p rs of
             Inl e \<Rightarrow> Inl e
           | Inr kept \<Rightarrow> Inr (if b then r # kept else kept)))"

subsection \<open>JSON\<close>

datatype json = JNull | JInt int | JStr string

type_synonym dict = "(string \<times> json) list"

definition json_int :: "int option \<Rightarrow> json" where
  "json_int c = (case c of None \<Rightarrow> JNull | Some n \<Rightarrow> JInt n)"

definition json_str :: "string option \<Rightarrow> json" where
  "json_str c = (case c of None \<Rightarrow> JNull | Some s \<Rightarrow> JStr s)"

text \<open>Reading a field of a returned object back: \<open>None\<close> for \<open>null\<close> (and for a
  missing key or a value of the other kind).\<close>

definition int_field :: "string \<Rightarrow> dict \<Rightarrow> int option" where
  "int_field k d = (case map_of d k of Some (JInt n) \<Rightarrow> Some n | _ \<Rightarrow> None)"

definition str_field :: "string \<Rightarrow> dict \<Rightarrow> string option" where
  "str_field k d = (case map_of d k of Some (JStr s) \<Rightarrow> Some s | _ \<Rightarrow> None)"

subsection \<open>The API functions\<close>

text \<open>Each function returns \<open>Inr\<close> of the list it passes to \<open>jsonify\<close>, or
  \<open>Inl\<close> of the exception its \<open>except\<close> clause turns into a 500 response. A query
  on a store without the table \<open>athletes\<close> raises \<open>OperationalError\<close>.\<close>

definition athlete_dict :: "athletes_row \<Rightarrow> dict" where
  "athlete_dict r =
     [(''year'', json_int (Year r)),
      (''country'', json_str (Country r)),
      (''athletes'', json_int (Athletes r)),
      (''sports'', json_int (Sports r)),
      (''events'', json_int (Events r)),
      (''gold'', json_int (Gold r)),
      (''silver'', json_int (Silver r)),
      (''bronze'', json_int (Bronze r)),
      (''medals'', json_int (Medals r))]"

text \<open>The two \<open>filter\<close> calls make one clause \<open>Medals > 0 AND lower(Country) LIKE
  lower(pattern)\<close>, in which \<open>LIKE\<close> is evaluated only on the rows that pass the
  first comparison.\<close>

definition entire_data_dump :: "database \<Rightarrow> string option \<Rightarrow> error + dict list" where
  "entire_data_dump db country_name =
     (case athletes db of
        None \<Rightarrow> Inl OperationalError
      | Some rows \<Rightarrow>
          (case sql_where
                  (\<lambda>r. if sql_gt (Medals r) 0
                        then (case country_name of
                                None \<Rightarrow> Inr True
                              | Some n \<Rightarrow> ilike (Country r) (''%'' @ n @ ''%''))
                        else Inr False) rows of
             Inl e \<Rightarrow> Inl e
           | Inr query \<Rightarrow> Inr (map athlete_dict (order_by by_Year_Country query))))"

definition country_dict :: "athletes_row \<Rightarrow> dict" where
  "country_dict r =
     [(''year'', json_int (Year r)),
      (''country'', json_str (Country r)),
      (''gold'', json_int (Gold r)),
      (''silver'', json_int (Silver r)),
      (''bronze'', json_int (Bronze r)),
      (''total_medals'', json_int (Medals r))]"

text \<open>\<open>selected_year\<close> is a Python integer, of any size. The statement is prepared
  first (a missing table fails there), then the year is bound as its parameter, which
  fails outside the range of an SQLite INTEGER; both exceptions reach the \<open>except\<close>
  clause.\<close>

definition total_medal_tally :: "database \<Rightarrow> int \<Rightarrow> error + dict list" where
  "total_medal_tally db selected_year =
     (case athletes db of
        None \<Rightarrow> Inl OperationalError
      | Some rows \<Rightarrow>
          if \<not> fits_sqlite_integer selected_year then Inl OverflowError
          else
            let query = filter (\<lambda>r. sql_eq (Year r) selected_year) rows;
                query = order_by by_Medals_desc query
            in Inr (map country_dict query))"



definition host_dict :: "athletes_row \<Rightarrow> dict" where
  "host_dict r =
     [(''year'', json_int (Year r)),
      (''country'', json_str (Country r)),
      (''gold'', json_int (Gold r)),
      (''silver'', json_int (Silver r)),
      (''bronze'', json_int (Bronze r)),
      (''total_medals'', json_int (Medals r))]"

definition host_countries :: "database \<Rightarrow> error + dict list" where
  "host_countries db =
     (case athletes db of
        None \<Rightarrow> Inl OperationalError
      | Some rows \<Rightarrow>
          let query = filter (\<lambda>r. sql_eq (Host r) 1) rows;
              query = order_by by_Year query
          in Inr (map host_dict query))"

definition country_medals :: "database \<Rightarrow> string \<Rightarrow> error + dict list" where
  "country_medals db selected_country =
     (case athletes db of
        None \<Rightarrow> Inl OperationalError
      | Some rows \<Rightarrow>
          (case sql_where (\<lambda>r. ilike (Country r) (''%'' @ selected_country @ ''%'')) rows of
             Inl e \<Rightarrow> Inl e
           | Inr query \<Rightarrow> Inr (map country_dict (order_by by_Year query))))"

definition nation_dict :: "athletes_row \<Rightarrow> dict" where
  "nation_dict r =
     [(''Year'', json_int (Year r)),
      (''Nation'', json_str (Country r)),
      (''Gold'', json_int (Gold r)),
      (''Silver'', json_int (Silver r)),
      (''Bronze'', json_int (Bronze r)),
      (''Medals'', json_int (Medals r))]"

definition total_medal_tally_year_after_1960 :: "database \<Rightarrow> error + dict list" where
  "total_medal_tally_year_after_1960 db =
     (case athletes db of
        None \<Rightarrow> Inl OperationalError
      | Some rows \<Rightarrow>
          let query = filter (\<lambda>r. sql_ge (Year r) 1960) rows;
              query = order_by by_Year_Medals_desc query
          in Inr (map nation_dict query))"


definition get_years :: "database \<Rightarrow> error + int option list" where
  "get_years db =
     (case athletes db of
        None \<Rightarrow> Inl OperationalError
      | Some rows \<Rightarrow> Inr (order_by (\<le>) (remdups (map Year rows))))"

subsection \<open>Routing\<close>
























subsection \<open>Notions of the specification\<close>

text \<open>A comparison that \<open>ORDER BY\<close> can sort by: any two rows are comparable, and
  the comparison is transitive.\<close>

definition total_preorder :: "('a \<Rightarrow> 'a \<Rightarrow> bool) \<Rightarrow> bool" where
  "total_preorder le =
     ((\<forall>x y. le x y \<or> le y x) \<and> (\<forall>x y z. le x y \<longrightarrow> le y z \<longrightarrow> le x z))"

text \<open>A filter string without the two wildcards of \<open>LIKE\<close>.\<close>

definition wildcard_free :: "string \<Rightarrow> bool" where
  "wildcard_free f = (CHR ''%'' \<notin> set f \<and> CHR ''_'' \<notin> set f)"

text \<open>Text of ASCII characters other than NUL.\<close>

definition ascii_text :: "string \<Rightarrow> bool" where
  "ascii_text s = list_all (\<lambda>c. c \<noteq> CHR 0x00 \<and> c < CHR 0x80) s"

text \<open>A filter of ASCII characters, without NUL and without wildcard, whose pattern
  (the filter between two \<open>%\<close>) stays within the 50000 bytes of \<open>LIKE\<close>.\<close>

definition plain_filter :: "string \<Rightarrow> bool" where
  "plain_filter f = (ascii_text f \<and> wildcard_free f \<and> length f \<le> 49998)"

definition ascii_countries :: "athletes_row list \<Rightarrow> bool" where
  "ascii_countries rows =
     list_all (\<lambda>r. case Country r of None \<Rightarrow> True | Some c \<Rightarrow> ascii_text c) rows"

text \<open>The lowercase form of the specification (Python's \<open>str.lower\<close>), on ASCII text,
  where it is the fold of the letters A to Z.\<close>

definition ascii_lower :: "string \<Rightarrow> string" where
  "ascii_lower s = map lower_char s"

text \<open>The match of the specification, in its words, on ASCII text: the lowercase form
  of the filter occurs as a contiguous substring anywhere within the lowercase form of
  the Country field. A row without a Country has no such form.\<close>

definition spec_country_match :: "string \<Rightarrow> athletes_row \<Rightarrow> bool" where
  "spec_country_match f r =
     (case Country r of None \<Rightarrow> False | Some c \<Rightarrow> sublist (ascii_lower f) (ascii_lower c))"

text \<open>A store in which every row with medals names its country (no NULL there).\<close>

definition winners_have_country :: "database \<Rightarrow> bool" where
  "winners_have_country db =
     (case athletes db of
        None \<Rightarrow> True
      | Some rows \<Rightarrow> list_all (\<lambda>r. sql_gt (Medals r) 0 \<longrightarrow> Country r \<noteq> None) rows)"


subsection \<open>Sample data\<close>

definition australia_2000 :: athletes_row where
  "australia_2000 =
     \<lparr>Year = Some 2000, Country = Some ''Australia'', Host = Some 1, Athletes = Some 617,
      Sports = Some 34, Events = Some 270, Gold = Some 16, Silver = Some 25,
      Bronze = Some 17, Medals = Some 58\<rparr>"

definition france_2000 :: athletes_row where
  "france_2000 =
     \<lparr>Year = Some 2000, Country = Some ''France'', Host = Some 0, Athletes = Some 336,
      Sports = Some 30, Events = Some 194, Gold = Some 13, Silver = Some 14,
      Bronze = Some 11, Medals = Some 38\<rparr>"

definition italy_1960 :: athletes_row where
  "italy_1960 =
     \<lparr>Year = Some 1960, Country = Some ''Italy'', Host = Some 1, Athletes = Some 280,
      Sports = Some 19, Events = Some 139, Gold = Some 13, Silver = Some 10,
      Bronze = Some 13, Medals = Some 36\<rparr>"

text \<open>A row read from a CSV line whose Country cell is empty.\<close>

definition unnamed_1996 :: athletes_row where
  "unnamed_1996 =
     \<lparr>Year = Some 1996, Country = None, Host = Some 0, Athletes = Some 12,
      Sports = Some 3, Events = Some 9, Gold = Some 1, Silver = Some 0,
      Bronze = Some 1, Medals = Some 2\<rparr>"

definition sample_db :: database where
  "sample_db =
     \<lparr>host_country = Some [(Some 2000, Some ''Australia'', Some ''Sydney'')],
      summer_olympics_host = Some [(Some 2000, Some ''Sydney'')],
      athletes = Some [france_2000, australia_2000, italy_1960]\<rparr>"

definition sample_db_unnamed :: database where
  "sample_db_unnamed =
     \<lparr>host_country = Some [],
      summer_olympics_host = Some [],
      athletes = Some [unnamed_1996, france_2000]\<rparr>"

definition sample_fs :: filesystem where
  "sample_fs =
     \<lparr>olympics_db = None,
      host_country_csv = Some [(Some 2000, Some ''Australia'', Some ''Sydney'')],
      Summer_Olympics_Host_csv = Some [(Some 2000, Some ''Sydney'')],
      summer_athlete_medals_count_csv = Some [france_2000, australia_2000, italy_1960],
      uri_resolves_to_cwd = True,
      uri_olympics_db = None\<rparr>"






section \<open>Auxiliary facts\<close>

subsection \<open>ORDER BY returns the same rows, sorted\<close>

lemma mset_insort_wrt: "mset (insort_wrt le x xs) = add_mset x (mset xs)"
  by (induction xs) simp_all

lemma mset_order_by: "mset (order_by le xs) = mset xs"
  unfolding order_by_def by (induction xs) (simp_all add: mset_insort_wrt)

lemma set_order_by: "set (order_by le xs) = set xs"
  using mset_order_by [of le xs] by (metis set_mset_mset)

lemma set_insort_wrt: "set (insort_wrt le x xs) = insert x (set xs)"
  using mset_insort_wrt [of le x xs] by (metis set_mset_mset set_mset_add_mset_insert)

lemma sorted_wrt_insort_wrt:
  assumes "total_preorder le" and "sorted_wrt le xs"
  shows "sorted_wrt le (insort_wrt le x xs)"
  using assms(2)
proof (induction xs)
  case Nil
  show ?case by simp
next
  case (Cons y ys)
  show ?case
  proof (cases "le x y")
    case True
    have "\<forall>z\<in>set ys. le x z"
      using True Cons.prems assms(1) unfolding total_preorder_def by auto
    with True Cons.prems show ?thesis by simp
  next
    case False
    hence "le y x" using assms(1) unfolding total_preorder_def by blast
    with False Cons show ?thesis by (simp add: set_insort_wrt)
  qed
qed

lemma sorted_wrt_order_by:
  assumes "total_preorder le"
  shows "sorted_wrt le (order_by le xs)"
  unfolding order_by_def
  by (induction xs) (simp_all add: sorted_wrt_insort_wrt [OF assms])

lemma tp_by_Year_Country: "total_preorder by_Year_Country"
  unfolding total_preorder_def by_Year_Country_def by (auto; order)

lemma tp_by_Medals_desc: "total_preorder by_Medals_desc"
  unfolding total_preorder_def by_Medals_desc_def by auto

lemma tp_by_Year: "total_preorder by_Year"
  unfolding total_preorder_def by_Year_def by auto

lemma tp_by_Year_Medals_desc: "total_preorder by_Year_Medals_desc"
  unfolding total_preorder_def by_Year_Medals_desc_def by (auto; order)

lemma tp_le: "total_preorder ((\<le>) :: 'a::linorder \<Rightarrow> 'a \<Rightarrow> bool)"
  unfolding total_preorder_def by auto

lemma distinct_order_by: "distinct (order_by le xs) = distinct xs"
  using mset_order_by [of le xs] by (rule mset_eq_imp_distinct_iff)

subsection \<open>Comparisons with a NULL\<close>

lemma sql_eq_iff: "sql_eq c k \<longleftrightarrow> c = Some k"
  by (auto simp: sql_eq_def split: option.splits)

lemma sql_ge_iff: "sql_ge c k \<longleftrightarrow> (\<exists>v. c = Some v \<and> k \<le> v)"
  by (auto simp: sql_ge_def split: option.splits)

subsection \<open>WHERE\<close>

lemma sql_where_Inr:
  assumes "sql_where p rows = Inr kept"
  shows "kept = filter (\<lambda>r. p r = Inr True) rows"
  using assms
proof (induction rows arbitrary: kept)
  case Nil
  thus ?case by simp
next
  case (Cons r rs)
  from Cons.prems obtain b kept' where b: "p r = Inr b" and k: "sql_where p rs = Inr kept'"
    and kept: "kept = (if b then r # kept' else kept')"
    by (auto split: sum.splits)
  from Cons.IH [OF k] b kept show ?case by auto
qed

lemma sql_where_total:
  assumes "\<forall>r\<in>set rows. \<exists>b. p r = Inr b"
  shows "sql_where p rows = Inr (filter (\<lambda>r. p r = Inr True) rows)"
  using assms
proof (induction rows)
  case Nil
  show ?case by simp
next
  case (Cons r rs)
  then obtain b where b: "p r = Inr b" by auto
  from Cons have "sql_where p rs = Inr (filter (\<lambda>r. p r = Inr True) rs)" by simp
  with b show ?case by auto
qed

lemma sql_where_cong:
  assumes "\<forall>r\<in>set rows. p r = q r"
  shows "sql_where p rows = sql_where q rows"
  using assms by (induction rows) (auto split: sum.splits)

subsection \<open>LIKE with a plain pattern\<close>

lemma lower_char_cases:
  "lower_char c = c \<or> lower_char c \<in> set ''abcdefghijklmnopqrstuvwxyz''"
  unfolding lower_char_def
  by (auto split: option.splits dest!: map_of_SomeD set_zip_rightD)

lemma lower_char_idem: "lower_char (lower_char c) = lower_char c"
  by (simp add: lower_char_def)

lemma lower_char_percent: "lower_char c = CHR ''%'' \<longleftrightarrow> c = CHR ''%''"
  by (simp add: lower_char_def)

lemma lower_char_underscore: "lower_char c = CHR ''_'' \<longleftrightarrow> c = CHR ''_''"
  by (simp add: lower_char_def)

lemma eq_commute_iff: "(a = b \<longleftrightarrow> P) \<Longrightarrow> (b = a \<longleftrightarrow> P)"
  by auto

lemma lower_char_ascii:
  assumes "c \<noteq> CHR 0x00 \<and> c < CHR 0x80"
  shows "lower_char c \<noteq> CHR 0x00 \<and> lower_char c < CHR 0x80"
proof -
  have "\<forall>l\<in>set ''abcdefghijklmnopqrstuvwxyz''. l \<noteq> CHR 0x00 \<and> l < CHR 0x80" by simp
  with assms lower_char_cases [of c] show ?thesis by metis
qed

lemma sql_lower_idem: "map lower_char (sql_lower s) = sql_lower s"
  by (simp add: sql_lower_def lower_char_idem)

lemma ascii_text_sql_lower: "ascii_text s \<Longrightarrow> ascii_text (sql_lower s)"
  by (simp add: ascii_text_def sql_lower_def list_all_iff lower_char_ascii)

lemma wildcard_free_sql_lower: "wildcard_free (sql_lower f) = wildcard_free f"
proof -
  have "CHR ''%'' \<in> set (map lower_char f) \<longleftrightarrow> CHR ''%'' \<in> set f"
    by (induction f) (auto simp: lower_char_percent lower_char_percent [THEN eq_commute_iff])
  moreover have "CHR ''_'' \<in> set (map lower_char f) \<longleftrightarrow> CHR ''_'' \<in> set f"
    by (induction f) (auto simp: lower_char_underscore lower_char_underscore [THEN eq_commute_iff])
  ultimately show ?thesis by (simp add: wildcard_free_def sql_lower_def)
qed

lemma c_string_ascii: "ascii_text s \<Longrightarrow> c_string s = s"
  by (simp add: c_string_def ascii_text_def list_all_iff takeWhile_eq_all_conv)

lemma utf8_chars_ascii: "ascii_text s \<Longrightarrow> utf8_chars s = map (\<lambda>c. [c]) s"
proof (induction s)
  case Nil
  show ?case by simp
next
  case (Cons c s)
  hence "c < CHR 0x80" and "ascii_text s" by (simp_all add: ascii_text_def)
  moreover have "CHR 0x80 \<le> CHR 0xC0" by simp
  ultimately have "\<not> CHR 0xC0 \<le> c" by (metis leD le_less_trans less_le_trans)
  with Cons \<open>ascii_text s\<close> show ?case by simp
qed

lemma like_percent_iff: "like (''%'' # q) s \<longleftrightarrow> (\<exists>a b. s = a @ b \<and> like q b)"
proof (induction s)
  case Nil
  show ?case by simp
next
  case (Cons c s)
  show ?case
  proof
    assume "like (''%'' # q) (c # s)"
    hence "like q (c # s) \<or> like (''%'' # q) s" by simp
    thus "\<exists>a b. c # s = a @ b \<and> like q b"
    proof
      assume "like q (c # s)"
      hence "c # s = [] @ (c # s) \<and> like q (c # s)" by simp
      thus ?thesis by blast
    next
      assume "like (''%'' # q) s"
      then obtain a b where "s = a @ b" "like q b" using Cons.IH by blast
      hence "c # s = (c # a) @ b \<and> like q b" by simp
      thus ?thesis by blast
    qed
  next
    assume "\<exists>a b. c # s = a @ b \<and> like q b"
    then obtain a b where ab: "c # s = a @ b" "like q b" by blast
    show "like (''%'' # q) (c # s)"
    proof (cases a)
      case Nil
      with ab have "like q (c # s)" by simp
      thus ?thesis by simp
    next
      case (Cons a1 a')
      with ab have "s = a' @ b" by simp
      with ab(2) Cons.IH have "like (''%'' # q) s" by blast
      thus ?thesis by simp
    qed
  qed
qed

lemma like_plain_percent:
  assumes "''%'' \<notin> set ps" and "''_'' \<notin> set ps"
  shows "like (ps @ [''%'']) s
         \<longleftrightarrow> (\<exists>m b. s = m @ b \<and> map (map lower_char) m = map (map lower_char) ps)"
  using assms
proof (induction ps arbitrary: s)
  case Nil
  have "like [''%''] s" using like_percent_iff [of "[]" s] by (metis append_Nil2 like.simps(1))
  thus ?case by simp
next
  case (Cons x ps)
  hence x: "x \<noteq> ''%''" "x \<noteq> ''_''" and ps: "''%'' \<notin> set ps" "''_'' \<notin> set ps" by auto
  show ?case
  proof (cases s)
    case Nil
    with x show ?thesis by simp
  next
    case (Cons c s')
    have "like ((x # ps) @ [''%'']) (c # s')
          \<longleftrightarrow> map lower_char x = map lower_char c \<and> like (ps @ [''%'']) s'"
      using x by simp
    also have "\<dots> \<longleftrightarrow> map lower_char x = map lower_char c
          \<and> (\<exists>m b. s' = m @ b \<and> map (map lower_char) m = map (map lower_char) ps)"
      using Cons.IH [OF ps] by simp
    also have "\<dots> \<longleftrightarrow> (\<exists>m b. c # s' = m @ b
          \<and> map (map lower_char) m = map (map lower_char) (x # ps))"
    proof
      assume "map lower_char x = map lower_char c
          \<and> (\<exists>m b. s' = m @ b \<and> map (map lower_char) m = map (map lower_char) ps)"
      then obtain m b where "map lower_char x = map lower_char c" "s' = m @ b"
        "map (map lower_char) m = map (map lower_char) ps"
        by blast
      hence "c # s' = (c # m) @ b
          \<and> map (map lower_char) (c # m) = map (map lower_char) (x # ps)" by simp
      thus "\<exists>m b. c # s' = m @ b \<and> map (map lower_char) m = map (map lower_char) (x # ps)"
        by blast
    next
      assume "\<exists>m b. c # s' = m @ b \<and> map (map lower_char) m = map (map lower_char) (x # ps)"
      then obtain m b where mb: "c # s' = m @ b"
        "map (map lower_char) m = map (map lower_char) (x # ps)" by blast
      then obtain m' where "m = c # m'" by (cases m) auto
      with mb show "map lower_char x = map lower_char c
          \<and> (\<exists>m b. s' = m @ b \<and> map (map lower_char) m = map (map lower_char) ps)"
        by auto
    qed
    finally show ?thesis using Cons by simp
  qed
qed

lemma like_substring:
  assumes "wildcard_free F" and "map lower_char F = F" and "map lower_char C = C"
  shows "like (map (\<lambda>c. [c]) (''%'' @ F @ ''%'')) (map (\<lambda>c. [c]) C) \<longleftrightarrow> sublist F C"
proof -
  let ?single = "\<lambda>c::char. [c]"
  have pat: "map ?single (''%'' @ F @ ''%'') = ''%'' # (map ?single F @ [''%''])" by simp
  have wf: "''%'' \<notin> set (map ?single F)" "''_'' \<notin> set (map ?single F)"
    using assms(1) by (auto simp: wildcard_free_def)
  have outer: "like (''%'' # (map ?single F @ [''%''])) (map ?single C)
      \<longleftrightarrow> (\<exists>a b. map ?single C = a @ b \<and> like (map ?single F @ [''%'']) b)"
    by (rule like_percent_iff)
  have inner: "like (map ?single F @ [''%'']) b
      \<longleftrightarrow> (\<exists>m b'. b = m @ b'
            \<and> map (map lower_char) m = map (map lower_char) (map ?single F))" for b
    by (rule like_plain_percent [OF wf])
  have fold: "map (map lower_char) (map ?single xs) = map ?single (map lower_char xs)" for xs
    by simp
  have inj: "map ?single xs = map ?single ys \<Longrightarrow> xs = ys" for xs ys
    by (simp add: inj_on_def map_eq_conv inj_map_eq_map)
  show ?thesis
  proof
    assume "like (map ?single (''%'' @ F @ ''%'')) (map ?single C)"
    hence "like (''%'' # (map ?single F @ [''%''])) (map ?single C)" by (simp only: pat)
    then obtain a b where ab: "map ?single C = a @ b" "like (map ?single F @ [''%'']) b"
      using outer by blast
    then obtain m b' where mb: "b = m @ b'"
      "map (map lower_char) m = map (map lower_char) (map ?single F)"
      using inner by blast
    from ab(1) mb(1) have "map ?single C = a @ m @ b'" by simp
    then obtain a' r where r: "C = a' @ r" "a = map ?single a'" "m @ b' = map ?single r"
      by (auto simp: map_eq_append_conv)
    then obtain m' b'' where m': "r = m' @ b''" "m = map ?single m'" "b' = map ?single b''"
      by (metis append_eq_map_conv)
    from mb(2) m'(2) have "map ?single (map lower_char m') = map ?single (map lower_char F)"
      by (simp only: fold)
    hence "map lower_char m' = map lower_char F" by (rule inj)
    moreover have "map lower_char m' = m'"
      using assms(3) r(1) m'(1) by (simp add: append_eq_append_conv)
    ultimately have "m' = F" using assms(2) by simp
    with r(1) m'(1) have "C = a' @ F @ b''" by simp
    thus "sublist F C" unfolding sublist_def by blast
  next
    assume "sublist F C"
    then obtain a' b'' where c: "C = a' @ F @ b''" unfolding sublist_def by blast
    have "like (map ?single F @ [''%'']) (map ?single F @ map ?single b'')"
      using inner [of "map ?single F @ map ?single b''"] by blast
    moreover have "map ?single C = map ?single a' @ (map ?single F @ map ?single b'')"
      using c by simp
    ultimately have "like (''%'' # (map ?single F @ [''%''])) (map ?single C)"
      using outer by blast
    thus "like (map ?single (''%'' @ F @ ''%'')) (map ?single C)" by (simp only: pat)
  qed
qed

lemma ascii_text_pattern: "ascii_text f \<Longrightarrow> ascii_text (''%'' @ f @ ''%'')"
  by (simp add: ascii_text_def)

lemma ilike_plain:
  assumes "plain_filter f" and "ascii_text c"
  shows "ilike (Some c) (''%'' @ f @ ''%'') = Inr (sublist (ascii_lower f) (ascii_lower c))"
proof -
  from assms(1) have af: "ascii_text f" and wf: "wildcard_free f" and len: "length f \<le> 49998"
    by (simp_all add: plain_filter_def)
  have lp: "sql_lower (''%'' @ f @ ''%'') = ''%'' @ sql_lower f @ ''%''"
    by (simp add: sql_lower_def lower_char_percent)
  have ap: "ascii_text (''%'' @ sql_lower f @ ''%'')"
    by (rule ascii_text_pattern) (rule ascii_text_sql_lower [OF af])
  have ac: "ascii_text (sql_lower c)" by (rule ascii_text_sql_lower [OF assms(2)])
  have "\<not> 50000 < length (sql_lower (''%'' @ f @ ''%''))"
    using len by (simp add: sql_lower_def)
  hence "ilike (Some c) (''%'' @ f @ ''%'')
      = Inr (like (utf8_chars (c_string (''%'' @ sql_lower f @ ''%'')))
                  (utf8_chars (c_string (sql_lower c))))"
    by (simp add: ilike_def like_function_def lp del: append.simps)
  also have "\<dots> = Inr (like (map (\<lambda>c. [c]) (''%'' @ sql_lower f @ ''%''))
                            (map (\<lambda>c. [c]) (sql_lower c)))"
    by (simp only: c_string_ascii [OF ap] c_string_ascii [OF ac]
        utf8_chars_ascii [OF ap] utf8_chars_ascii [OF ac])
  also have "\<dots> = Inr (sublist (sql_lower f) (sql_lower c))"
    using like_substring [of "sql_lower f" "sql_lower c"] wf
    by (simp only: wildcard_free_sql_lower sql_lower_idem)
  finally show ?thesis by (simp add: ascii_lower_def sql_lower_def)
qed

lemma ilike_NULL: "length pattern \<le> 50000 \<Longrightarrow> ilike None pattern = Inr False"
  by (simp add: ilike_def like_function_def sql_lower_def)

lemma ilike_spec_country_match:
  assumes "plain_filter f" and "case Country r of None \<Rightarrow> True | Some c \<Rightarrow> ascii_text c"
  shows "ilike (Country r) (''%'' @ f @ ''%'') = Inr (spec_country_match f r)"
proof (cases "Country r")
  case None
  from assms(1) have "length (''%'' @ f @ ''%'') \<le> 50000" by (simp add: plain_filter_def)
  from ilike_NULL [OF this] None show ?thesis by (simp add: spec_country_match_def)
next
  case (Some c)
  with assms(2) have "ascii_text c" by simp
  from ilike_plain [OF assms(1) this] Some show ?thesis by (simp add: spec_country_match_def)
qed

lemma sql_lower_two_percent: "sql_lower ''%%'' = ''%%''"
  by (simp add: sql_lower_def lower_char_percent)

lemma like_two_percent: "like [''%'', ''%''] s"
  using like_percent_iff [of "[''%'']" s] like_percent_iff [of "[]" s]
  by (metis append_Nil2 like.simps(1) append_Nil)

lemma ilike_empty_filter: "ilike (Some c) (''%'' @ [] @ ''%'') = Inr True"
  by (simp add: ilike_def like_function_def sql_lower_two_percent c_string_def like_two_percent)

subsection \<open>Paths\<close>













subsection \<open>Reading the fields of a returned object\<close>

lemma int_field_athlete_dict_year: "int_field ''year'' (athlete_dict r) = Year r"
  by (simp add: int_field_def athlete_dict_def json_int_def split: option.splits)

lemma str_field_athlete_dict_country: "str_field ''country'' (athlete_dict r) = Country r"
  by (simp add: str_field_def athlete_dict_def json_str_def split: option.splits)

lemma int_field_athlete_dict_medals: "int_field ''medals'' (athlete_dict r) = Medals r"
  by (simp add: int_field_def athlete_dict_def json_int_def split: option.splits)

lemma int_field_country_dict_total_medals:
  "int_field ''total_medals'' (country_dict r) = Medals r"
  by (simp add: int_field_def country_dict_def json_int_def split: option.splits)

lemma int_field_host_dict_year: "int_field ''year'' (host_dict r) = Year r"
  by (simp add: int_field_def host_dict_def json_int_def split: option.splits)

lemma int_field_nation_dict_Year: "int_field ''Year'' (nation_dict r) = Year r"
  by (simp add: int_field_def nation_dict_def json_int_def split: option.splits)

lemma int_field_nation_dict_Medals: "int_field ''Medals'' (nation_dict r) = Medals r"
  by (simp add: int_field_def nation_dict_def json_int_def split: option.splits)

section \<open>The claims\<close>

text \<open>C1: when the store file \<open>olympics.db\<close> already exists, \<open>create_db_from_csv\<close>
  returns at once, without an error and without looking at the content of the file, and
  leaves every file as it was; so the three tables of the store are unchanged.\<close>

theorem create_db_from_csv_existing_store:
  assumes "olympics_db fs = Some db"
  shows "create_db_from_csv fs = (Inr (), fs)"
  using assms by (simp add: create_db_from_csv_def)

theorem create_db_from_csv_existing_store_witness:
  "olympics_db (sample_fs\<lparr>olympics_db := Some sample_db\<rparr>) = Some sample_db
   \<and> create_db_from_csv (sample_fs\<lparr>olympics_db := Some sample_db\<rparr>)
       = (Inr (), sample_fs\<lparr>olympics_db := Some sample_db\<rparr>)"
  using create_db_from_csv_existing_store [of "sample_fs\<lparr>olympics_db := Some sample_db\<rparr>" sample_db]
  by simp

text \<open>C2: whatever the store and the optional country filter, every object that
  \<open>entire_data_dump\<close> returns has a \<open>medals\<close> field above zero, and the returned
  list is sorted by \<open>year\<close> ascending, ties broken by \<open>country\<close> ascending (a
  \<open>null\<close> sorts before every value, as in SQLite).\<close>

theorem entire_data_dump_medals_sorted:
  assumes "entire_data_dump db country_name = Inr ds"
  shows "(\<forall>d\<in>set ds. \<exists>m. int_field ''medals'' d = Some m \<and> 0 < m)
         \<and> sorted_wrt (\<lambda>d e. int_field ''year'' d < int_field ''year'' e
              \<or> (int_field ''year'' d = int_field ''year'' e
                  \<and> str_field ''country'' d \<le> str_field ''country'' e)) ds"
proof -
  define clause where "clause = (\<lambda>r::athletes_row. if sql_gt (Medals r) 0
                        then (case country_name of
                                None \<Rightarrow> Inr True
                              | Some n \<Rightarrow> ilike (Country r) (''%'' @ n @ ''%''))
                        else Inr False)"
  from assms obtain rows sel where rows: "athletes db = Some rows"
    and sel: "sql_where clause rows = Inr sel"
    and ds: "ds = map athlete_dict (order_by by_Year_Country sel)"
    unfolding entire_data_dump_def clause_def by (auto split: option.splits sum.splits)
  have "sel = filter (\<lambda>r. clause r = Inr True) rows" by (rule sql_where_Inr [OF sel])
  hence "\<forall>r\<in>set sel. sql_gt (Medals r) 0"
    by (auto simp: clause_def split: if_splits)
  hence medals: "\<forall>r\<in>set (order_by by_Year_Country sel). \<exists>m. Medals r = Some m \<and> 0 < m"
    by (auto simp: set_order_by sql_gt_def split: option.splits)
  have "sorted_wrt by_Year_Country (order_by by_Year_Country sel)"
    by (rule sorted_wrt_order_by [OF tp_by_Year_Country])
  hence sorted: "sorted_wrt (\<lambda>d e. int_field ''year'' d < int_field ''year'' e
              \<or> (int_field ''year'' d = int_field ''year'' e
                  \<and> str_field ''country'' d \<le> str_field ''country'' e)) ds"
    unfolding ds sorted_wrt_map int_field_athlete_dict_year str_field_athlete_dict_country
    by (simp add: by_Year_Country_def [abs_def])
  from medals have "\<forall>d\<in>set ds. \<exists>m. int_field ''medals'' d = Some m \<and> 0 < m"
    unfolding ds by (simp add: int_field_athlete_dict_medals)
  with sorted show ?thesis by blast
qed

theorem entire_data_dump_medals_sorted_witness:
  "entire_data_dump sample_db (Some ''a'')
     = Inr [athlete_dict italy_1960, athlete_dict australia_2000, athlete_dict france_2000]
   \<and> (\<exists>m. int_field ''medals'' (athlete_dict italy_1960) = Some m \<and> 0 < m)
   \<and> sorted_wrt (\<lambda>d e. int_field ''year'' d < int_field ''year'' e
              \<or> (int_field ''year'' d = int_field ''year'' e
                  \<and> str_field ''country'' d \<le> str_field ''country'' e))
        [athlete_dict italy_1960, athlete_dict australia_2000, athlete_dict france_2000]"
proof -
  have h: "entire_data_dump sample_db (Some ''a'')
     = Inr [athlete_dict italy_1960, athlete_dict australia_2000, athlete_dict france_2000]"
    by (simp add: entire_data_dump_def sample_db_def order_by_def sql_gt_def ilike_def
        like_function_def c_string_def sql_lower_def lower_char_def by_Year_Country_def
        france_2000_def australia_2000_def italy_1960_def)
  from entire_data_dump_medals_sorted [OF h] h show ?thesis by simp
qed

text \<open>C3, as stated, fails: the filter is pasted into a \<open>LIKE\<close> pattern as it is.
  A wildcard in it selects rows whose Country does not contain it: the filter \<open>_\<close>
  selects France, and \<open>_\<close> does not occur in \<open>france\<close>. A NUL ends the pattern:
  the filter made of one NUL selects every row. And a filter of 49999 characters makes a
  pattern that \<open>LIKE\<close> refuses: the answer is an error, not a selection.\<close>

theorem country_medals_wildcard_counterexample:
  "country_medals sample_db ''_''
     = Inr [country_dict italy_1960, country_dict france_2000, country_dict australia_2000]
   \<and> \<not> spec_country_match ''_'' france_2000
   \<and> country_medals sample_db [CHR 0x00]
     = Inr [country_dict italy_1960, country_dict france_2000, country_dict australia_2000]
   \<and> \<not> spec_country_match [CHR 0x00] france_2000
   \<and> country_medals sample_db (replicate 49999 CHR ''a'') = Inl OperationalError"
  by (simp add: country_medals_def sample_db_def order_by_def ilike_def like_function_def
        c_string_def sql_lower_def lower_char_def by_Year_def france_2000_def
        australia_2000_def italy_1960_def spec_country_match_def ascii_lower_def
        sublist_Cons_right prefix_Cons)

text \<open>C3, amended: for a filter of at most 49998 ASCII characters, none of them
  \<open>%\<close>, \<open>_\<close> or NUL, on a store whose Country values are ASCII text without NUL,
  \<open>country_medals\<close> returns the objects of exactly the rows whose Country is not NULL
  and contains the lowercase filter as a contiguous substring of its lowercase form, and
  \<open>entire_data_dump\<close> with that filter returns the objects of exactly those of them
  with Medals above zero (each row as often as it stands in the table).\<close>

theorem country_filter_substring:
  assumes "plain_filter f" and "athletes db = Some rows" and "ascii_countries rows"
  shows "(\<exists>sel. country_medals db f = Inr (map country_dict sel)
            \<and> mset sel = filter_mset (spec_country_match f) (mset rows))
       \<and> (\<exists>sel. entire_data_dump db (Some f) = Inr (map athlete_dict sel)
            \<and> mset sel = filter_mset (\<lambda>r. sql_gt (Medals r) 0 \<and> spec_country_match f r) (mset rows))"
proof
  have m: "\<forall>r\<in>set rows. ilike (Country r) (''%'' @ f @ ''%'') = Inr (spec_country_match f r)"
    using assms(3) ilike_spec_country_match [OF assms(1)]
    by (simp add: ascii_countries_def list_all_iff)
  have "sql_where (\<lambda>r. ilike (Country r) (''%'' @ f @ ''%'')) rows
          = sql_where (\<lambda>r. Inr (spec_country_match f r)) rows"
    by (rule sql_where_cong) (use m in blast)
  also have "\<dots> = Inr (filter (spec_country_match f) rows)"
    using sql_where_total [of rows "\<lambda>r. Inr (spec_country_match f r)"] by simp
  finally have "country_medals db f
          = Inr (map country_dict (order_by by_Year (filter (spec_country_match f) rows)))"
    using assms(2) by (simp add: country_medals_def del: append.simps)
  moreover have "mset (order_by by_Year (filter (spec_country_match f) rows))
          = filter_mset (spec_country_match f) (mset rows)"
    by (simp add: mset_order_by)
  ultimately show "\<exists>sel. country_medals db f = Inr (map country_dict sel)
            \<and> mset sel = filter_mset (spec_country_match f) (mset rows)"
    by blast
next
  let ?both = "\<lambda>r. sql_gt (Medals r) 0 \<and> spec_country_match f r"
  have m: "\<forall>r\<in>set rows. ilike (Country r) (''%'' @ f @ ''%'') = Inr (spec_country_match f r)"
    using assms(3) ilike_spec_country_match [OF assms(1)]
    by (simp add: ascii_countries_def list_all_iff)
  have "sql_where (\<lambda>r. if sql_gt (Medals r) 0
                        then (case Some f of
                                None \<Rightarrow> Inr True
                              | Some n \<Rightarrow> ilike (Country r) (''%'' @ n @ ''%''))
                        else Inr False) rows
          = sql_where (\<lambda>r. Inr (?both r)) rows"
    by (rule sql_where_cong) (use m in \<open>simp del: append.simps\<close>)
  also have "\<dots> = Inr (filter ?both rows)"
    using sql_where_total [of rows "\<lambda>r. Inr (?both r)"] by simp
  finally have "entire_data_dump db (Some f)
          = Inr (map athlete_dict (order_by by_Year_Country (filter ?both rows)))"
    using assms(2) by (simp add: entire_data_dump_def del: append.simps)
  moreover have "mset (order_by by_Year_Country (filter ?both rows))
          = filter_mset ?both (mset rows)"
    by (simp add: mset_order_by)
  ultimately show "\<exists>sel. entire_data_dump db (Some f) = Inr (map athlete_dict sel)
            \<and> mset sel = filter_mset ?both (mset rows)"
    by blast
qed

theorem country_filter_substring_witness:
  "plain_filter ''fra''
   \<and> athletes sample_db = Some [france_2000, australia_2000, italy_1960]
   \<and> ascii_countries [france_2000, australia_2000, italy_1960]
   \<and> country_medals sample_db ''fra'' = Inr [country_dict france_2000]
   \<and> (\<exists>sel. country_medals sample_db ''fra'' = Inr (map country_dict sel)
            \<and> mset sel = filter_mset (spec_country_match ''fra'')
                           (mset [france_2000, australia_2000, italy_1960]))"
proof -
  have h1: "plain_filter ''fra''"
    by (simp add: plain_filter_def ascii_text_def wildcard_free_def)
  have h2: "athletes sample_db = Some [france_2000, australia_2000, italy_1960]"
    by (simp add: sample_db_def)
  have h3: "ascii_countries [france_2000, australia_2000, italy_1960]"
    by (simp add: ascii_countries_def ascii_text_def france_2000_def australia_2000_def
        italy_1960_def)
  have v: "country_medals sample_db ''fra'' = Inr [country_dict france_2000]"
    by (simp add: country_medals_def sample_db_def order_by_def ilike_def like_function_def
        c_string_def sql_lower_def lower_char_def by_Year_def france_2000_def
        australia_2000_def italy_1960_def)
  from country_filter_substring [OF h1 h2 h3] h1 h2 h3 v show ?thesis by blast
qed

text \<open>C4: whatever the store and the filter, every object that \<open>entire_data_dump\<close>
  returns with the filter is among those it returns without a filter (and the call
  without a filter succeeds when the call with the filter does).\<close>

theorem entire_data_dump_filter_subset:
  assumes "entire_data_dump db (Some f) = Inr ds"
  shows "\<exists>ds'. entire_data_dump db None = Inr ds' \<and> set ds \<subseteq> set ds'"
proof -
  define clause where "clause = (\<lambda>r::athletes_row. if sql_gt (Medals r) 0
                        then ilike (Country r) (''%'' @ f @ ''%'') else Inr False)"
  define medals where "medals = (\<lambda>r::athletes_row. if sql_gt (Medals r) 0
                        then Inr True else (Inr False :: error + bool))"
  have e: "entire_data_dump db (Some f)
      = (case athletes db of
           None \<Rightarrow> Inl OperationalError
         | Some rows \<Rightarrow>
             (case sql_where clause rows of
                Inl e \<Rightarrow> Inl e
              | Inr query \<Rightarrow> Inr (map athlete_dict (order_by by_Year_Country query))))"
    unfolding entire_data_dump_def clause_def by (simp only: option.case)
  with assms obtain rows sel where rows: "athletes db = Some rows"
    and sel: "sql_where clause rows = Inr sel"
    and ds: "ds = map athlete_dict (order_by by_Year_Country sel)"
    by (auto split: option.splits sum.splits)
  have s: "sel = filter (\<lambda>r. clause r = Inr True) rows" by (rule sql_where_Inr [OF sel])
  have "sql_where medals rows = Inr (filter (\<lambda>r. medals r = Inr True) rows)"
    by (rule sql_where_total) (auto simp: medals_def)
  moreover have "entire_data_dump db None
      = (case athletes db of
           None \<Rightarrow> Inl OperationalError
         | Some rows \<Rightarrow>
             (case sql_where medals rows of
                Inl e \<Rightarrow> Inl e
              | Inr query \<Rightarrow> Inr (map athlete_dict (order_by by_Year_Country query))))"
    unfolding entire_data_dump_def medals_def by (simp only: option.case)
  ultimately have all: "entire_data_dump db None
      = Inr (map athlete_dict (order_by by_Year_Country (filter (\<lambda>r. medals r = Inr True) rows)))"
    using rows by simp
  have "set sel \<subseteq> set (filter (\<lambda>r. medals r = Inr True) rows)"
    unfolding s by (auto simp: clause_def medals_def split: if_splits)
  hence "set ds \<subseteq> set (map athlete_dict
            (order_by by_Year_Country (filter (\<lambda>r. medals r = Inr True) rows)))"
    unfolding ds by (auto simp: set_order_by)
  with all show ?thesis by blast
qed

theorem entire_data_dump_filter_subset_witness:
  "entire_data_dump sample_db (Some ''fra'') = Inr [athlete_dict france_2000]
   \<and> (\<exists>ds'. entire_data_dump sample_db None = Inr ds'
         \<and> set [athlete_dict france_2000] \<subseteq> set ds')"
proof -
  have h: "entire_data_dump sample_db (Some ''fra'') = Inr [athlete_dict france_2000]"
    by (simp add: entire_data_dump_def sample_db_def order_by_def sql_gt_def ilike_def
        like_function_def c_string_def sql_lower_def lower_char_def by_Year_Country_def
        france_2000_def australia_2000_def italy_1960_def)
  from entire_data_dump_filter_subset [OF h] h show ?thesis by blast
qed

text \<open>C5, as stated, fails: the year of the path is a Python integer of any size (the
  converter \<open>int\<close> accepts any run of digits), and a year outside the signed 64-bit
  range cannot be bound as a parameter of the query: the driver raises
  \<open>OverflowError\<close> and the function answers with an error, not with the empty list,
  although no row has that year.\<close>

theorem total_medal_tally_overflow_counterexample:
  "athletes sample_db = Some [france_2000, australia_2000, italy_1960]
   \<and> total_medal_tally sample_db 9223372036854775808 = Inl OverflowError"
  by (simp add: total_medal_tally_def sample_db_def fits_sqlite_integer_def)

text \<open>C5, amended: for every year in the signed 64-bit range and every store with
  the table \<open>athletes\<close>, \<open>total_medal_tally\<close> returns the objects of exactly the
  rows whose Year equals the year, sorted by \<open>total_medals\<close> descending (a \<open>null\<close>
  last, as in SQLite); when no row matches it returns the empty list, not an error.\<close>

theorem total_medal_tally_year:
  assumes "athletes db = Some rows" and "fits_sqlite_integer selected_year"
  shows "\<exists>sel. total_medal_tally db selected_year = Inr (map country_dict sel)
          \<and> mset sel = filter_mset (\<lambda>r. Year r = Some selected_year) (mset rows)
          \<and> sorted_wrt (\<lambda>d e. int_field ''total_medals'' e \<le> int_field ''total_medals'' d)
               (map country_dict sel)
          \<and> ((\<forall>r\<in>set rows. Year r \<noteq> Some selected_year) \<longrightarrow> sel = [])"
proof -
  define sel where "sel = order_by by_Medals_desc (filter (\<lambda>r. sql_eq (Year r) selected_year) rows)"
  have res: "total_medal_tally db selected_year = Inr (map country_dict sel)"
    using assms by (simp add: total_medal_tally_def sel_def)
  have ms: "mset sel = filter_mset (\<lambda>r. Year r = Some selected_year) (mset rows)"
    by (simp add: sel_def mset_order_by sql_eq_iff)
  have "sorted_wrt by_Medals_desc sel"
    unfolding sel_def by (rule sorted_wrt_order_by [OF tp_by_Medals_desc])
  hence sorted: "sorted_wrt (\<lambda>d e. int_field ''total_medals'' e \<le> int_field ''total_medals'' d)
               (map country_dict sel)"
    unfolding sorted_wrt_map int_field_country_dict_total_medals
    by (simp add: by_Medals_desc_def [abs_def])
  have empty: "(\<forall>r\<in>set rows. Year r \<noteq> Some selected_year) \<longrightarrow> sel = []"
  proof
    assume "\<forall>r\<in>set rows. Year r \<noteq> Some selected_year"
    hence "filter_mset (\<lambda>r. Year r = Some selected_year) (mset rows) = {#}"
      by simp
    with ms show "sel = []" by simp
  qed
  from res ms sorted empty show ?thesis by blast
qed

theorem total_medal_tally_year_witness:
  "athletes sample_db = Some [france_2000, australia_2000, italy_1960]
   \<and> fits_sqlite_integer 2000
   \<and> total_medal_tally sample_db 2000 = Inr [country_dict australia_2000, country_dict france_2000]
   \<and> (\<exists>sel. total_medal_tally sample_db 2000 = Inr (map country_dict sel)
          \<and> mset sel = filter_mset (\<lambda>r. Year r = Some 2000)
                         (mset [france_2000, australia_2000, italy_1960]))"
proof -
  have h1: "athletes sample_db = Some [france_2000, australia_2000, italy_1960]"
    by (simp add: sample_db_def)
  have h2: "fits_sqlite_integer 2000" by (simp add: fits_sqlite_integer_def)
  have v: "total_medal_tally sample_db 2000
             = Inr [country_dict australia_2000, country_dict france_2000]"
    by (simp add: total_medal_tally_def sample_db_def fits_sqlite_integer_def order_by_def
        sql_eq_def by_Medals_desc_def france_2000_def australia_2000_def italy_1960_def)
  from total_medal_tally_year [OF h1 h2] h1 h2 v show ?thesis by blast
qed

text \<open>C6: whatever the store, every object that \<open>host_countries\<close> returns is that of
  a row of the table with Host = 1 (the objects themselves carry no host field), and the
  returned list is sorted by \<open>year\<close> ascending.\<close>

theorem host_countries_host_sorted:
  assumes "host_countries db = Inr ds"
  shows "\<exists>rows sel. athletes db = Some rows \<and> ds = map host_dict sel
          \<and> mset sel = filter_mset (\<lambda>r. Host r = Some 1) (mset rows)
          \<and> (\<forall>r\<in>set sel. Host r = Some 1)
          \<and> sorted_wrt (\<lambda>d e. int_field ''year'' d \<le> int_field ''year'' e) ds"
proof -
  from assms obtain rows where rows: "athletes db = Some rows"
    by (auto simp: host_countries_def split: option.splits)
  define sel where "sel = order_by by_Year (filter (\<lambda>r. sql_eq (Host r) 1) rows)"
  have ds: "ds = map host_dict sel"
    using assms rows by (simp add: host_countries_def sel_def)
  have ms: "mset sel = filter_mset (\<lambda>r. Host r = Some 1) (mset rows)"
    by (simp add: sel_def mset_order_by sql_eq_iff)
  have host: "\<forall>r\<in>set sel. Host r = Some 1"
    by (simp add: sel_def set_order_by sql_eq_iff)
  have "sorted_wrt by_Year sel"
    unfolding sel_def by (rule sorted_wrt_order_by [OF tp_by_Year])
  hence sorted: "sorted_wrt (\<lambda>d e. int_field ''year'' d \<le> int_field ''year'' e) ds"
    unfolding ds sorted_wrt_map int_field_host_dict_year
    by (simp add: by_Year_def [abs_def])
  from rows ds ms host sorted show ?thesis by blast
qed

theorem host_countries_host_sorted_witness:
  "host_countries sample_db = Inr [host_dict italy_1960, host_dict australia_2000]
   \<and> (\<exists>rows sel. athletes sample_db = Some rows
          \<and> [host_dict italy_1960, host_dict australia_2000] = map host_dict sel
          \<and> mset sel = filter_mset (\<lambda>r. Host r = Some 1) (mset rows)
          \<and> (\<forall>r\<in>set sel. Host r = Some 1)
          \<and> sorted_wrt (\<lambda>d e. int_field ''year'' d \<le> int_field ''year'' e)
               [host_dict italy_1960, host_dict australia_2000])"
proof -
  have h: "host_countries sample_db = Inr [host_dict italy_1960, host_dict australia_2000]"
    by (simp add: host_countries_def sample_db_def order_by_def sql_eq_def by_Year_def
        france_2000_def australia_2000_def italy_1960_def)
  from h host_countries_host_sorted [OF h] show ?thesis by (rule conjI)
qed

text \<open>C7, as stated, fails: the objects of \<open>total_medal_tally_year_after_1960\<close> have
  no field \<open>Country\<close>; the country is under the key \<open>Nation\<close>.\<close>

theorem total_medal_tally_year_after_1960_keys_counterexample:
  "total_medal_tally_year_after_1960 sample_db
     = Inr [nation_dict italy_1960, nation_dict australia_2000, nation_dict france_2000]
   \<and> map fst (nation_dict italy_1960)
       = [''Year'', ''Nation'', ''Gold'', ''Silver'', ''Bronze'', ''Medals'']
   \<and> map_of (nation_dict italy_1960) ''Country'' = None
   \<and> map_of (nation_dict italy_1960) ''Nation'' = Some (JStr ''Italy'')"
  by (simp add: total_medal_tally_year_after_1960_def sample_db_def order_by_def sql_ge_def
        by_Year_Medals_desc_def france_2000_def australia_2000_def italy_1960_def
        nation_dict_def json_str_def)

text \<open>C7, amended: on every store with the table \<open>athletes\<close>,
  \<open>total_medal_tally_year_after_1960\<close> returns the objects of exactly the rows with
  Year at least 1960, sorted by \<open>Year\<close> ascending, then \<open>Medals\<close> descending, and
  every returned object has the capitalised keys \<open>Year\<close>, \<open>Nation\<close>, \<open>Gold\<close>,
  \<open>Silver\<close>, \<open>Bronze\<close>, \<open>Medals\<close>, unlike the objects of the other functions.\<close>

theorem total_medal_tally_year_after_1960_rows:
  assumes "athletes db = Some rows"
  shows "\<exists>sel. total_medal_tally_year_after_1960 db = Inr (map nation_dict sel)
          \<and> mset sel = filter_mset (\<lambda>r. \<exists>y. Year r = Some y \<and> 1960 \<le> y) (mset rows)
          \<and> sorted_wrt (\<lambda>d e. int_field ''Year'' d < int_field ''Year'' e
                \<or> (int_field ''Year'' d = int_field ''Year'' e
                    \<and> int_field ''Medals'' e \<le> int_field ''Medals'' d))
               (map nation_dict sel)
          \<and> (\<forall>d\<in>set (map nation_dict sel).
                map fst d = [''Year'', ''Nation'', ''Gold'', ''Silver'', ''Bronze'', ''Medals''])"
proof -
  define sel where "sel = order_by by_Year_Medals_desc (filter (\<lambda>r. sql_ge (Year r) 1960) rows)"
  have res: "total_medal_tally_year_after_1960 db = Inr (map nation_dict sel)"
    using assms by (simp add: total_medal_tally_year_after_1960_def sel_def)
  have ms: "mset sel = filter_mset (\<lambda>r. \<exists>y. Year r = Some y \<and> 1960 \<le> y) (mset rows)"
    by (simp add: sel_def mset_order_by sql_ge_iff)
  have "sorted_wrt by_Year_Medals_desc sel"
    unfolding sel_def by (rule sorted_wrt_order_by [OF tp_by_Year_Medals_desc])
  hence sorted: "sorted_wrt (\<lambda>d e. int_field ''Year'' d < int_field ''Year'' e
                \<or> (int_field ''Year'' d = int_field ''Year'' e
                    \<and> int_field ''Medals'' e \<le> int_field ''Medals'' d))
               (map nation_dict sel)"
    unfolding sorted_wrt_map int_field_nation_dict_Year int_field_nation_dict_Medals
    by (simp add: by_Year_Medals_desc_def [abs_def])
  have keys: "\<forall>d\<in>set (map nation_dict sel).
                map fst d = [''Year'', ''Nation'', ''Gold'', ''Silver'', ''Bronze'', ''Medals'']"
    by (auto simp: nation_dict_def)
  from res ms sorted keys show ?thesis by blast
qed

theorem total_medal_tally_year_after_1960_rows_witness:
  "athletes sample_db = Some [france_2000, australia_2000, italy_1960]
   \<and> (\<exists>sel. total_medal_tally_year_after_1960 sample_db = Inr (map nation_dict sel)
          \<and> mset sel = filter_mset (\<lambda>r. \<exists>y. Year r = Some y \<and> 1960 \<le> y)
                         (mset [france_2000, australia_2000, italy_1960]))"
proof -
  have h: "athletes sample_db = Some [france_2000, australia_2000, italy_1960]"
    by (simp add: sample_db_def)
  from total_medal_tally_year_after_1960_rows [OF h] h show ?thesis by blast
qed

text \<open>C8, as stated, fails: the loader writes the file \<open>olympics.db\<close> of the
  working directory, and \<open>get_years\<close> reads the file behind the URI
  \<open>sqlite:///olympics.db\<close>. Where the URI is resolved to another file, the ingestion
  completes and \<open>get_years\<close> then finds no table \<open>athletes\<close>: it answers with
  an error.\<close>

theorem get_years_other_file_counterexample:
  "olympics_db (sample_fs\<lparr>uri_resolves_to_cwd := False\<rparr>) = None
   \<and> create_db_from_csv (sample_fs\<lparr>uri_resolves_to_cwd := False\<rparr>)
       = (Inr (), sample_fs\<lparr>uri_resolves_to_cwd := False, olympics_db := Some sample_db\<rparr>)
   \<and> get_years (engine_database
         (sample_fs\<lparr>uri_resolves_to_cwd := False, olympics_db := Some sample_db\<rparr>))
       = Inl OperationalError"
  by (simp add: create_db_from_csv_def sample_fs_def sample_db_def to_sql_def cell_fits_def
      fits_sqlite_integer_def host_country_integers_def summer_olympics_host_integers_def
      athletes_integers_def empty_database_def engine_database_def get_years_def
      france_2000_def australia_2000_def italy_1960_def)

text \<open>C8, amended: when the URI of the queries resolves to the file that the loader
  writes, the store file is absent and \<open>create_db_from_csv\<close> completes, the table
  \<open>athletes\<close> that the queries see holds the rows of the athletes CSV file, and
  \<open>get_years\<close> returns exactly the Year values of those rows, each once, in
  ascending order.\<close>

theorem get_years_after_ingestion:
  assumes "olympics_db fs = None" and "create_db_from_csv fs = (Inr (), fs')"
    and "uri_resolves_to_cwd fs"
  shows "\<exists>ingested ys. summer_athlete_medals_count_csv fs = Some ingested
          \<and> athletes (engine_database fs') = Some ingested
          \<and> get_years (engine_database fs') = Inr ys
          \<and> set ys = Year ` set ingested \<and> distinct ys \<and> sorted ys"
proof -
  from assms(1,2) obtain hc soh ingested where
    csv: "summer_athlete_medals_count_csv fs = Some ingested"
    and fs': "fs' = fs\<lparr>olympics_db := Some \<lparr>host_country = Some hc,
                 summer_olympics_host = Some soh, athletes = Some ingested\<rparr>\<rparr>"
    by (auto simp: create_db_from_csv_def Let_def to_sql_def empty_database_def
        split: option.splits sum.splits if_splits)
  have ath: "athletes (engine_database fs') = Some ingested"
    using assms(3) by (simp add: fs' engine_database_def)
  define ys where "ys = order_by (\<le>) (remdups (map Year ingested))"
  have res: "get_years (engine_database fs') = Inr ys" by (simp add: get_years_def ath ys_def)
  have s: "set ys = Year ` set ingested" by (simp add: ys_def set_order_by)
  have d: "distinct ys" by (simp add: ys_def distinct_order_by)
  have "sorted_wrt (\<le>) ys" unfolding ys_def by (rule sorted_wrt_order_by [OF tp_le])
  hence so: "sorted ys" by simp
  from csv ath res s d so show ?thesis by blast
qed

theorem get_years_after_ingestion_witness:
  "olympics_db sample_fs = None
   \<and> create_db_from_csv sample_fs = (Inr (), sample_fs\<lparr>olympics_db := Some sample_db\<rparr>)
   \<and> uri_resolves_to_cwd sample_fs
   \<and> get_years (engine_database (sample_fs\<lparr>olympics_db := Some sample_db\<rparr>))
       = Inr [Some 1960, Some 2000]
   \<and> (\<exists>ingested ys. summer_athlete_medals_count_csv sample_fs = Some ingested
          \<and> athletes (engine_database (sample_fs\<lparr>olympics_db := Some sample_db\<rparr>))
              = Some ingested
          \<and> get_years (engine_database (sample_fs\<lparr>olympics_db := Some sample_db\<rparr>)) = Inr ys
          \<and> set ys = Year ` set ingested \<and> distinct ys \<and> sorted ys)"
proof -
  have h1: "olympics_db sample_fs = None" by (simp add: sample_fs_def)
  have h2: "create_db_from_csv sample_fs = (Inr (), sample_fs\<lparr>olympics_db := Some sample_db\<rparr>)"
    by (simp add: create_db_from_csv_def sample_fs_def sample_db_def to_sql_def cell_fits_def
      fits_sqlite_integer_def host_country_integers_def summer_olympics_host_integers_def
      athletes_integers_def empty_database_def france_2000_def australia_2000_def
      italy_1960_def)
  have h3: "uri_resolves_to_cwd sample_fs" by (simp add: sample_fs_def)
  have v: "get_years (engine_database (sample_fs\<lparr>olympics_db := Some sample_db\<rparr>))
       = Inr [Some 1960, Some 2000]"
    by (simp add: get_years_def engine_database_def sample_fs_def sample_db_def order_by_def
        france_2000_def australia_2000_def italy_1960_def)
  from get_years_after_ingestion [OF h1 h2 h3] h1 h2 h3 v show ?thesis by blast
qed



text \<open>C10, as stated, fails: the empty filter gives the pattern \<open>%%\<close>, which every
  string matches but NULL does not, so a row with medals and no Country is returned
  without a filter and dropped with the empty filter.\<close>

theorem entire_data_dump_empty_filter_counterexample:
  "entire_data_dump sample_db_unnamed (Some []) = Inr [athlete_dict france_2000]
   \<and> entire_data_dump sample_db_unnamed None
       = Inr [athlete_dict unnamed_1996, athlete_dict france_2000]
   \<and> entire_data_dump sample_db_unnamed (Some []) \<noteq> entire_data_dump sample_db_unnamed None"
  by (simp add: entire_data_dump_def sample_db_unnamed_def order_by_def sql_gt_def ilike_def
        like_function_def c_string_def sql_lower_def lower_char_def by_Year_Country_def
        france_2000_def unnamed_1996_def athlete_dict_def json_int_def json_str_def)

text \<open>C10, amended: on a store in which every row with Medals above zero has a Country,
  \<open>entire_data_dump\<close> with the empty string as filter returns the same list, in the
  same order, as without a filter (and the same error when the table is missing).\<close>

theorem entire_data_dump_empty_filter:
  assumes "winners_have_country db"
  shows "entire_data_dump db (Some []) = entire_data_dump db None"
proof (cases "athletes db")
  case None
  thus ?thesis by (simp add: entire_data_dump_def)
next
  case (Some rows)
  have "\<forall>r\<in>set rows.
          (if sql_gt (Medals r) 0 then ilike (Country r) (''%'' @ [] @ ''%'') else Inr False)
          = (if sql_gt (Medals r) 0 then Inr True else Inr False)"
    using assms Some ilike_empty_filter
    by (auto simp: winners_have_country_def list_all_iff simp del: append.simps)
  hence eq: "sql_where (\<lambda>r. if sql_gt (Medals r) 0
                         then ilike (Country r) (''%'' @ [] @ ''%'') else Inr False) rows
       = sql_where (\<lambda>r. if sql_gt (Medals r) 0 then Inr True else Inr False) rows"
    by (rule sql_where_cong)
  have e1: "entire_data_dump db (Some [])
       = (case sql_where (\<lambda>r. if sql_gt (Medals r) 0
                         then ilike (Country r) (''%'' @ [] @ ''%'') else Inr False) rows of
            Inl e \<Rightarrow> Inl e
          | Inr query \<Rightarrow> Inr (map athlete_dict (order_by by_Year_Country query)))"
    unfolding entire_data_dump_def Some by (simp only: option.case)
  have e2: "entire_data_dump db None
       = (case sql_where (\<lambda>r. if sql_gt (Medals r) 0 then Inr True else Inr False) rows of
            Inl e \<Rightarrow> Inl e
          | Inr query \<Rightarrow> Inr (map athlete_dict (order_by by_Year_Country query)))"
    unfolding entire_data_dump_def Some by (simp only: option.case)
  show ?thesis by (simp only: e1 e2 eq)
qed

theorem entire_data_dump_empty_filter_witness:
  "winners_have_country sample_db
   \<and> entire_data_dump sample_db (Some []) = entire_data_dump sample_db None"
proof -
  have h: "winners_have_country sample_db"
    by (simp add: winners_have_country_def sample_db_def france_2000_def australia_2000_def
        italy_1960_def)
  from entire_data_dump_empty_filter [OF h] h show ?thesis by blast
qed

end
